theory Spec2Isabelle
  imports Complex_Main
begin

section \<open>Load shapes: the stage tables and \<open>tick\<close>\<close>

text \<open>
  \<^verbatim>\<open>locustfile-scenarios.py\<close> declares two load shapes. Each holds a table of stages
  (dictionaries with the keys \<^verbatim>\<open>duration\<close>, \<^verbatim>\<open>users\<close>, \<^verbatim>\<open>spawn_rate\<close>) and a method
  \<^verbatim>\<open>tick\<close> that reads the run time and walks the table:
  \<^verbatim>\<open>
    for stage in self.stages:
        if run_time < stage["duration"]:
            return (stage["users"], stage["spawn_rate"])
    return None
  \<close>
  The run time is a Python float (seconds since the start of the test); it is a
  \<^typ>\<open>real\<close> here, compared with the integer durations of the table.
\<close>

record stage =
  duration :: int
  users :: int
  spawn_rate :: int

text \<open>The \<^verbatim>\<open>for\<close> loop of both \<^verbatim>\<open>tick\<close> methods, as recursion over the table.\<close>

fun tick_loop :: "stage list \<Rightarrow> real \<Rightarrow> (int \<times> int) option" where
  "tick_loop [] run_time = None"
| "tick_loop (stage # rest) run_time =
     (if run_time < real_of_int (duration stage)
      then Some (users stage, spawn_rate stage)
      else tick_loop rest run_time)"

definition StepLoadShape_stages :: "stage list" where
  "StepLoadShape_stages =
     [\<lparr>duration = 60, users = 10, spawn_rate = 2\<rparr>,
      \<lparr>duration = 120, users = 25, spawn_rate = 3\<rparr>,
      \<lparr>duration = 180, users = 50, spawn_rate = 5\<rparr>,
      \<lparr>duration = 240, users = 75, spawn_rate = 5\<rparr>,
      \<lparr>duration = 300, users = 100, spawn_rate = 5\<rparr>]"

definition StepLoadShape_tick :: "real \<Rightarrow> (int \<times> int) option" where
  "StepLoadShape_tick run_time = tick_loop StepLoadShape_stages run_time"

definition SpikeLoadShape_stages :: "stage list" where
  "SpikeLoadShape_stages =
     [\<lparr>duration = 30, users = 10, spawn_rate = 2\<rparr>,
      \<lparr>duration = 60, users = 100, spawn_rate = 20\<rparr>,
      \<lparr>duration = 90, users = 10, spawn_rate = 10\<rparr>,
      \<lparr>duration = 120, users = 100, spawn_rate = 20\<rparr>,
      \<lparr>duration = 150, users = 10, spawn_rate = 10\<rparr>]"

definition SpikeLoadShape_tick :: "real \<Rightarrow> (int \<times> int) option" where
  "SpikeLoadShape_tick run_time = tick_loop SpikeLoadShape_stages run_time"

text \<open>
  The reading of the table that the load-shape claims use: the first stage whose
  duration strictly exceeds the run time, found with the library's \<^const>\<open>find\<close>.
\<close>

definition first_stage_after :: "stage list \<Rightarrow> real \<Rightarrow> stage option" where
  "first_stage_after stages run_time =
     find (\<lambda>stage. run_time < real_of_int (duration stage)) stages"

definition command_of :: "stage \<Rightarrow> int \<times> int" where
  "command_of stage = (users stage, spawn_rate stage)"

section \<open>Values exchanged with the order service\<close>

text \<open>
  What \<^verbatim>\<open>response.json()\<close> can return: the Python value of a JSON document. A JSON
  object is a \<^verbatim>\<open>dict\<close>, kept as an association list read with \<^const>\<open>map_of\<close>;
  \<^verbatim>\<open>null\<close> is Python's \<^verbatim>\<open>None\<close>. Floats are reals: only whether a number is zero
  matters below.
\<close>

datatype json_value =
    JNull
  | JBool bool
  | JInt int
  | JFloat real
  | JString string
  | JArray "json_value list"
  | JObject "(string \<times> json_value) list"

text \<open>
  The exceptions the modelled code can meet. All are subclasses of \<^verbatim>\<open>Exception\<close>, so
  both the bare \<^verbatim>\<open>except:\<close> of \<^verbatim>\<open>locustfile.py\<close> and the \<^verbatim>\<open>except Exception as e:\<close>
  of \<^verbatim>\<open>locustfile-scenarios.py\<close> catch each of them.
\<close>

datatype py_exn =
    ValueError
  | IndexError
  | AttributeError
  | TypeError
  | JSONDecodeError
  | UnicodeDecodeError

text \<open>
  A line item of an order payload: a dictionary with three keys. The prices are
  Python floats written as decimal literals; they are reals here, and only their
  sign is used.
\<close>

record item =
  item_id :: string
  quantity :: int
  price :: real

text \<open>
  The response of the service, as far as the code reads it: the status code and what
  calling \<^verbatim>\<open>response.json()\<close> does (raise, or return the parsed body).
\<close>

record response =
  status_code :: int
  json :: "py_exn + json_value"

text \<open>
  An f-string, kept as its parts: literal text and the formatted values, so that
  \<^verbatim>\<open>f"/order/{order_id}"\<close> is \<open>[Lit ''/order/'', Fmt_json order_id]\<close>.
\<close>

datatype fpart =
    Lit string
  | Fmt_int int
  | Fmt_json json_value
  | Fmt_exn py_exn

type_synonym fstring = "fpart list"

text \<open>
  A request handed to \<^verbatim>\<open>self.client\<close>: \<^verbatim>\<open>post(url, json={"items": ...}, name=...)\<close> or
  \<^verbatim>\<open>get(url, name=...)\<close>.
\<close>

datatype request =
    Post fstring "item list" string
  | Get fstring string

text \<open>The calls \<^verbatim>\<open>response.success()\<close> and \<^verbatim>\<open>response.failure(message)\<close>.\<close>

datatype mark = Success | Failure fstring

section \<open>The user classes and the list objects they hold\<close>

datatype cls =
    OrderServiceUser
  | ResilienceTestUser
  | NormalOperationUser
  | FailFastUser
  | CircuitBreakerInventoryUser
  | CircuitBreakerPaymentUser
  | BulkheadUser
  | CombinedChaosUser
  | MixedWorkloadUser

text \<open>
  The statement \<^verbatim>\<open>order_ids = []\<close> stands in the body of two classes,
  \<^verbatim>\<open>OrderServiceUser\<close> (in \<^verbatim>\<open>locustfile.py\<close>) and \<^verbatim>\<open>ResilienceTestUser\<close> (in
  \<^verbatim>\<open>locustfile-scenarios.py\<close>). Each runs once, when its class is created, and binds
  the class attribute to one list object. These two objects are the only lists the
  code appends to.
\<close>

datatype ref = OrderServiceUser_order_ids | ResilienceTestUser_order_ids

text \<open>
  The attribute lookup \<^verbatim>\<open>self.order_ids\<close>. No statement of either file assigns
  \<^verbatim>\<open>self.order_ids\<close>, and no subclass body binds \<^verbatim>\<open>order_ids\<close>, so the instance
  dictionary never holds the name and the lookup goes to the class of the instance
  and up its bases: every subclass of \<^verbatim>\<open>ResilienceTestUser\<close> finds the attribute of
  \<^verbatim>\<open>ResilienceTestUser\<close>.
\<close>

fun order_ids_ref :: "cls \<Rightarrow> ref" where
  "order_ids_ref OrderServiceUser = OrderServiceUser_order_ids"
| "order_ids_ref ResilienceTestUser = ResilienceTestUser_order_ids"
| "order_ids_ref NormalOperationUser = ResilienceTestUser_order_ids"
| "order_ids_ref FailFastUser = ResilienceTestUser_order_ids"
| "order_ids_ref CircuitBreakerInventoryUser = ResilienceTestUser_order_ids"
| "order_ids_ref CircuitBreakerPaymentUser = ResilienceTestUser_order_ids"
| "order_ids_ref BulkheadUser = ResilienceTestUser_order_ids"
| "order_ids_ref CombinedChaosUser = ResilienceTestUser_order_ids"
| "order_ids_ref MixedWorkloadUser = ResilienceTestUser_order_ids"

text \<open>A simulated user: an instance with its identity and its class.\<close>

record user =
  ident :: nat
  cls_of :: cls

text \<open>The store: the contents of each list object.\<close>

type_synonym store = "ref \<Rightarrow> json_value list"

definition order_ids :: "user \<Rightarrow> store \<Rightarrow> json_value list" where
  "order_ids self st = st (order_ids_ref (cls_of self))"

definition empty_store :: store where
  "empty_store r = []"

text \<open>
  What one call of a task does: the request it sends, the marks it sets on the
  response, and the store it leaves.
\<close>

record call =
  sent :: request
  marks :: "mark list"
  after :: store

text \<open>The catalogue \<^verbatim>\<open>items\<close>, the same literal in both classes.\<close>

definition items :: "item list" where
  "items =
     [\<lparr>item_id = ''item-1'', quantity = 1, price = 999.99\<rparr>,
      \<lparr>item_id = ''item-2'', quantity = 2, price = 29.99\<rparr>,
      \<lparr>item_id = ''item-3'', quantity = 1, price = 79.99\<rparr>,
      \<lparr>item_id = ''item-4'', quantity = 1, price = 299.99\<rparr>,
      \<lparr>item_id = ''item-5'', quantity = 3, price = 149.99\<rparr>]"

section \<open>The library calls the tasks make\<close>

text \<open>
  The module \<^verbatim>\<open>random\<close> is not part of the repository. Its draws are an input here:
  a sequence \<open>rng\<close> of natural numbers, each reduced modulo the number of choices at
  hand, so that every sequence is a legal run of the generator and every legal run
  comes from some sequence.

  \<^verbatim>\<open>random.randint(a, b)\<close> returns an integer between \<open>a\<close> and \<open>b\<close>, both included.
\<close>

definition randint :: "int \<Rightarrow> int \<Rightarrow> nat \<Rightarrow> int" where
  "randint a b r = a + int (r mod nat (b - a + 1))"

text \<open>
  \<^verbatim>\<open>random.sample(population, k)\<close> returns \<open>k\<close> elements taken at distinct positions of
  the population, and raises \<^verbatim>\<open>ValueError\<close> when \<open>k\<close> is negative or larger than the
  population.
\<close>

fun sample_from :: "'a list \<Rightarrow> nat \<Rightarrow> (nat \<Rightarrow> nat) \<Rightarrow> 'a list" where
  "sample_from pool 0 rng = []"
| "sample_from pool (Suc k) rng =
     (let j = rng 0 mod length pool
      in pool ! j # sample_from (take j pool @ drop (Suc j) pool) k (\<lambda>i. rng (Suc i)))"

definition sample :: "'a list \<Rightarrow> int \<Rightarrow> (nat \<Rightarrow> nat) \<Rightarrow> py_exn + 'a list" where
  "sample population k rng =
     (if k < 0 \<or> int (length population) < k then Inl ValueError
      else Inr (sample_from population (nat k) rng))"

text \<open>\<^verbatim>\<open>random.choice(seq)\<close> raises \<^verbatim>\<open>IndexError\<close> on an empty sequence.\<close>

definition choice :: "'a list \<Rightarrow> nat \<Rightarrow> py_exn + 'a" where
  "choice seq r = (if seq = [] then Inl IndexError else Inr (seq ! (r mod length seq)))"

text \<open>
  \<^verbatim>\<open>order_data.get(key)\<close>: only a \<^verbatim>\<open>dict\<close> has the method; on a list, a string, a
  number, a boolean or \<^verbatim>\<open>None\<close> the attribute lookup raises \<^verbatim>\<open>AttributeError\<close>. A
  missing key gives \<^verbatim>\<open>None\<close>.
\<close>

definition dict_get :: "json_value \<Rightarrow> string \<Rightarrow> py_exn + json_value" where
  "dict_get order_data key =
     (case order_data of
        JObject kvs \<Rightarrow> Inr (case map_of kvs key of None \<Rightarrow> JNull | Some v \<Rightarrow> v)
      | _ \<Rightarrow> Inl AttributeError)"

text \<open>Python's truth value of a parsed JSON value, as \<^verbatim>\<open>if order_id:\<close> tests it.\<close>

fun truthy :: "json_value \<Rightarrow> bool" where
  "truthy JNull = False"
| "truthy (JBool b) = b"
| "truthy (JInt n) = (n \<noteq> 0)"
| "truthy (JFloat x) = (x \<noteq> 0)"
| "truthy (JString s) = (s \<noteq> [])"
| "truthy (JArray xs) = (xs \<noteq> [])"
| "truthy (JObject kvs) = (kvs \<noteq> [])"

section \<open>\<^verbatim>\<open>locustfile.py\<close>: \<^verbatim>\<open>OrderServiceUser\<close>\<close>

text \<open>
  \<^verbatim>\<open>create_order\<close>. The draws of \<^verbatim>\<open>randint\<close> and \<^verbatim>\<open>sample\<close> come from \<open>rng\<close>; the
  answer of the service to the POST is the argument \<open>response\<close>. The body of the
  \<^verbatim>\<open>try\<close> is \<open>attempt\<close>: it either raises or leaves a store.
\<close>

definition create_order :: "user \<Rightarrow> store \<Rightarrow> (nat \<Rightarrow> nat) \<Rightarrow> response \<Rightarrow> py_exn + call" where
  "create_order self st rng response =
     (let num_items = randint 1 3 (rng 0) in
      case sample items num_items (\<lambda>i. rng (Suc i)) of
        Inl e \<Rightarrow> Inl e
      | Inr selected_items \<Rightarrow>
          let request = Post [Lit ''/order/create''] selected_items ''/order/create'' in
          if status_code response = 200 then
            (let attempt =
               (case json response of
                  Inl e \<Rightarrow> Inl e
                | Inr order_data \<Rightarrow>
                    (case dict_get order_data ''order_id'' of
                       Inl e \<Rightarrow> Inl e
                     | Inr order_id \<Rightarrow>
                         Inr (if truthy order_id then
                                (if length (order_ids self st) < 100
                                 then st(order_ids_ref (cls_of self) := order_ids self st @ [order_id])
                                 else st)
                              else st)))
             in case attempt of
                  Inr st' \<Rightarrow> Inr \<lparr>sent = request, marks = [Success], after = st'\<rparr>
                | Inl e \<Rightarrow>
                    Inr \<lparr>sent = request,
                         marks = [Failure [Lit ''Failed to parse response'']],
                         after = st\<rparr>)
          else
            Inr \<lparr>sent = request,
                 marks = [Failure [Lit ''Got status '', Fmt_int (status_code response)]],
                 after = st\<rparr>)"

text \<open>\<^verbatim>\<open>get_order\<close>: a plain GET, whose response the task does not inspect.\<close>

definition get_order :: "user \<Rightarrow> store \<Rightarrow> (nat \<Rightarrow> nat) \<Rightarrow> py_exn + call" where
  "get_order self st rng =
     (if order_ids self st \<noteq> [] then
        (case choice (order_ids self st) (rng 0) of
           Inl e \<Rightarrow> Inl e
         | Inr order_id \<Rightarrow>
             Inr \<lparr>sent = Get [Lit ''/order/'', Fmt_json order_id] ''/order/:orderId'',
                  marks = [], after = st\<rparr>)
      else
        Inr \<lparr>sent = Get [Lit ''/order/dummy-order-id''] ''/order/:orderId'',
             marks = [], after = st\<rparr>)"

section \<open>\<^verbatim>\<open>locustfile-scenarios.py\<close>: \<^verbatim>\<open>ResilienceTestUser\<close> and \<^verbatim>\<open>FailFastUser\<close>\<close>

text \<open>
  \<^verbatim>\<open>create_valid_order(self, num_items=None)\<close>. The sample is drawn before the request,
  outside the \<^verbatim>\<open>try\<close>: a \<^verbatim>\<open>ValueError\<close> of \<^verbatim>\<open>random.sample\<close> leaves the method.

  This is the method of \<^verbatim>\<open>ResilienceTestUser\<close>, which the tasks of the subclasses call
  as \<^verbatim>\<open>self.create_valid_order()\<close>. \<^verbatim>\<open>MixedWorkloadUser\<close> declares a task of the same
  name whose body is that very call, so for its instances the call finds the task
  again and the method below is never entered; they only read the list.
\<close>

definition create_valid_order ::
  "user \<Rightarrow> store \<Rightarrow> int option \<Rightarrow> (nat \<Rightarrow> nat) \<Rightarrow> response \<Rightarrow> py_exn + call" where
  "create_valid_order self st num_items rng response =
     (let num_items = (case num_items of None \<Rightarrow> randint 1 3 (rng 0) | Some n \<Rightarrow> n) in
      case sample items (min num_items (int (length items))) (\<lambda>i. rng (Suc i)) of
        Inl e \<Rightarrow> Inl e
      | Inr selected_items \<Rightarrow>
          let request = Post [Lit ''/order/create''] selected_items ''/order/create'' in
          if status_code response = 200 then
            (let attempt =
               (case json response of
                  Inl e \<Rightarrow> Inl e
                | Inr order_data \<Rightarrow>
                    (case dict_get order_data ''order_id'' of
                       Inl e \<Rightarrow> Inl e
                     | Inr order_id \<Rightarrow>
                         Inr (if truthy order_id \<and> length (order_ids self st) < 100
                              then st(order_ids_ref (cls_of self) := order_ids self st @ [order_id])
                              else st)))
             in case attempt of
                  Inr st' \<Rightarrow> Inr \<lparr>sent = request, marks = [Success], after = st'\<rparr>
                | Inl e \<Rightarrow>
                    Inr \<lparr>sent = request,
                         marks = [Failure [Lit ''Failed to parse response: '', Fmt_exn e]],
                         after = st\<rparr>)
          else if status_code response \<ge> 500 then
            Inr \<lparr>sent = request, marks = [Success], after = st\<rparr>
          else
            Inr \<lparr>sent = request,
                 marks = [Failure [Lit ''Got status '', Fmt_int (status_code response)]],
                 after = st\<rparr>)"

definition get_order_details :: "user \<Rightarrow> store \<Rightarrow> (nat \<Rightarrow> nat) \<Rightarrow> py_exn + call" where
  "get_order_details self st rng =
     (if order_ids self st \<noteq> [] then
        (case choice (order_ids self st) (rng 0) of
           Inl e \<Rightarrow> Inl e
         | Inr order_id \<Rightarrow>
             Inr \<lparr>sent = Get [Lit ''/order/'', Fmt_json order_id] ''/order/:orderId'',
                  marks = [], after = st\<rparr>)
      else
        Inr \<lparr>sent = Get [Lit ''/order/dummy-order-id''] ''/order/:orderId'',
             marks = [], after = st\<rparr>)"

text \<open>
  The four tasks of \<^verbatim>\<open>FailFastUser\<close>. Each posts a fixed payload and compares the status
  code with 400; none reads or writes \<^verbatim>\<open>order_ids\<close>.
\<close>

definition empty_order :: "user \<Rightarrow> store \<Rightarrow> response \<Rightarrow> call" where
  "empty_order self st response =
     \<lparr>sent = Post [Lit ''/order/create''] [] ''/order/create [empty]'',
      marks = (if status_code response = 400 then [Success]
               else [Failure [Lit ''Expected 400, got '', Fmt_int (status_code response)]]),
      after = st\<rparr>"

definition invalid_quantity :: "user \<Rightarrow> store \<Rightarrow> response \<Rightarrow> call" where
  "invalid_quantity self st response =
     \<lparr>sent = Post [Lit ''/order/create'']
               [\<lparr>item_id = ''item-1'', quantity = 0, price = 999.99\<rparr>]
               ''/order/create [invalid quantity]'',
      marks = (if status_code response = 400 then [Success]
               else [Failure [Lit ''Expected 400, got '', Fmt_int (status_code response)]]),
      after = st\<rparr>"

definition invalid_price :: "user \<Rightarrow> store \<Rightarrow> response \<Rightarrow> call" where
  "invalid_price self st response =
     \<lparr>sent = Post [Lit ''/order/create'']
               [\<lparr>item_id = ''item-1'', quantity = 1, price = - 10\<rparr>]
               ''/order/create [invalid price]'',
      marks = (if status_code response = 400 then [Success]
               else [Failure [Lit ''Expected 400, got '', Fmt_int (status_code response)]]),
      after = st\<rparr>"

definition missing_item_id :: "user \<Rightarrow> store \<Rightarrow> response \<Rightarrow> call" where
  "missing_item_id self st response =
     \<lparr>sent = Post [Lit ''/order/create'']
               [\<lparr>item_id = '''', quantity = 1, price = 99.99\<rparr>]
               ''/order/create [missing item_id]'',
      marks = (if status_code response = 400 then [Success]
               else [Failure [Lit ''Expected 400, got '', Fmt_int (status_code response)]]),
      after = st\<rparr>"

section \<open>Sequences of tasks\<close>

text \<open>
  The tasks that read or write \<^verbatim>\<open>order_ids\<close>, each with the instance that runs it and
  with what the environment supplies: the random draws and, for a POST, the response.
  Locust runs the users as greenlets, which switch only where a task waits for
  the network. Between the arrival of the response and the end of the task there is
  no such point, so the accesses to the list within one task are not interleaved
  with those of another: a run is a sequence of tasks.
\<close>

datatype task =
    Create_order user "nat \<Rightarrow> nat" response
  | Get_order user "nat \<Rightarrow> nat"
  | Create_valid_order user "int option" "nat \<Rightarrow> nat" response
  | Get_order_details user "nat \<Rightarrow> nat"

fun perform :: "store \<Rightarrow> task \<Rightarrow> py_exn + call" where
  "perform st (Create_order self rng response) = create_order self st rng response"
| "perform st (Get_order self rng) = get_order self st rng"
| "perform st (Create_valid_order self num_items rng response) =
     create_valid_order self st num_items rng response"
| "perform st (Get_order_details self rng) = get_order_details self st rng"

text \<open>
  An exception that leaves a task is caught and logged by the task runner of the
  library; the user goes on with its next task. The store is the one the task left,
  which is the one it found: neither method writes before a statement that can
  raise outside the \<^verbatim>\<open>try\<close>.
\<close>

definition step :: "store \<Rightarrow> task \<Rightarrow> store" where
  "step st t = (case perform st t of Inl e \<Rightarrow> st | Inr c \<Rightarrow> after c)"

definition run :: "store \<Rightarrow> task list \<Rightarrow> store" where
  "run st ts = foldl step st ts"

text \<open>The responses the service gave to the POSTs of a sequence of tasks.\<close>

fun answered :: "task \<Rightarrow> response list" where
  "answered (Create_order self rng response) = [response]"
| "answered (Create_valid_order self num_items rng response) = [response]"
| "answered (Get_order self rng) = []"
| "answered (Get_order_details self rng) = []"

section \<open>The notions the claims are stated with\<close>

text \<open>
  The order identifier a response serves: the status code is 200, the body parses to
  a JSON object, and the object holds under \<^verbatim>\<open>order_id\<close> a value that is not empty
  (one Python takes as true).
\<close>

definition served_order_id :: "response \<Rightarrow> json_value option" where
  "served_order_id response =
     (if status_code response = 200 then
        (case json response of
           Inl e \<Rightarrow> None
         | Inr order_data \<Rightarrow>
             (case order_data of
                JObject kvs \<Rightarrow>
                  (case map_of kvs ''order_id'' of
                     None \<Rightarrow> None
                   | Some v \<Rightarrow> (if truthy v then Some v else None))
              | _ \<Rightarrow> None))
      else None)"

text \<open>
  What the claims say a creation task does to the store: it appends the identifier
  the response serves to the list the instance reads, while that list is shorter
  than 100, and changes nothing else.
\<close>

definition cached :: "user \<Rightarrow> store \<Rightarrow> response \<Rightarrow> store" where
  "cached self st response =
     (case served_order_id response of
        None \<Rightarrow> st
      | Some v \<Rightarrow>
          (if length (order_ids self st) < 100
           then st(order_ids_ref (cls_of self) := order_ids self st @ [v])
           else st))"

definition served :: "task list \<Rightarrow> json_value set" where
  "served ts = {v. \<exists>response \<in> set (concat (map answered ts)). served_order_id response = Some v}"

text \<open>The items of the payload of a request (a GET carries none).\<close>

fun payload :: "request \<Rightarrow> item list" where
  "payload (Post url selected_items name) = selected_items"
| "payload (Get url name) = []"

text \<open>
  The validity rules of the service for a line item: an identifier that is not
  empty, a positive quantity and a positive price.
\<close>

definition valid_item :: "item \<Rightarrow> bool" where
  "valid_item it \<longleftrightarrow> item_id it \<noteq> [] \<and> 0 < quantity it \<and> 0 < price it"

text \<open>A payload of distinct valid items of the catalogue.\<close>

definition catalogue_sample :: "item list \<Rightarrow> bool" where
  "catalogue_sample its \<longleftrightarrow> distinct its \<and> set its \<subseteq> set items \<and> list_all valid_item its"

text \<open>
  The calls of \<^verbatim>\<open>create_valid_order\<close> that reach the POST: \<^verbatim>\<open>num_items\<close> is left out, or
  is not negative.
\<close>

definition reaches_post :: "int option \<Rightarrow> bool" where
  "reaches_post num_items = (case num_items of None \<Rightarrow> True | Some n \<Rightarrow> 0 \<le> n)"

text \<open>A store whose lists are full: each holds 100 identifiers.\<close>

definition full_store :: store where
  "full_store r = replicate 100 (JString ''order'')"

text \<open>The generator that always draws the first of the choices at hand.\<close>

definition first_choices :: "nat \<Rightarrow> nat" where
  "first_choices i = 0"

section \<open>Theorems about the load shapes\<close>

lemma tick_loop_find:
  "tick_loop stages t = map_option command_of (first_stage_after stages t)"
  by (induction stages) (simp_all add: first_stage_after_def command_of_def)

lemma StepLoadShape_tick_cases:
  "StepLoadShape_tick t =
     (if t < 60 then Some (10, 2)
      else if t < 120 then Some (25, 3)
      else if t < 180 then Some (50, 5)
      else if t < 240 then Some (75, 5)
      else if t < 300 then Some (100, 5)
      else None)"
  by (simp add: StepLoadShape_tick_def StepLoadShape_stages_def)

lemma SpikeLoadShape_tick_cases:
  "SpikeLoadShape_tick t =
     (if t < 30 then Some (10, 2)
      else if t < 60 then Some (100, 20)
      else if t < 90 then Some (10, 10)
      else if t < 120 then Some (100, 20)
      else if t < 150 then Some (10, 10)
      else None)"
  by (simp add: SpikeLoadShape_tick_def SpikeLoadShape_stages_def)

text \<open>
  Claim C9. For both load shapes, \<^verbatim>\<open>tick\<close> at run time \<open>t\<close> returns the pair
  (users, spawn rate) of the first stage of the table whose duration is strictly
  greater than \<open>t\<close>, and it returns \<^verbatim>\<open>None\<close> exactly when \<open>t\<close> is at or past the
  duration of the last stage: 300 seconds for the step shape, 150 seconds for the
  spike shape.
\<close>

theorem tick_first_stage:
  "StepLoadShape_tick t = map_option command_of (first_stage_after StepLoadShape_stages t)
   \<and> SpikeLoadShape_tick t = map_option command_of (first_stage_after SpikeLoadShape_stages t)
   \<and> (StepLoadShape_tick t = None \<longleftrightarrow> 300 \<le> t)
   \<and> (SpikeLoadShape_tick t = None \<longleftrightarrow> 150 \<le> t)
   \<and> duration (last StepLoadShape_stages) = 300
   \<and> duration (last SpikeLoadShape_stages) = 150"
proof -
  have "StepLoadShape_tick t = None \<longleftrightarrow> 300 \<le> t"
    by (simp add: StepLoadShape_tick_cases)
  moreover have "SpikeLoadShape_tick t = None \<longleftrightarrow> 150 \<le> t"
    by (simp add: SpikeLoadShape_tick_cases)
  moreover have "duration (last StepLoadShape_stages) = 300"
    by (simp add: StepLoadShape_stages_def)
  moreover have "duration (last SpikeLoadShape_stages) = 150"
    by (simp add: SpikeLoadShape_stages_def)
  ultimately show ?thesis
    by (simp add: StepLoadShape_tick_def SpikeLoadShape_tick_def tick_loop_find)
qed

theorem tick_first_stage_witness:
  "StepLoadShape_tick 130 = Some (50, 5)
   \<and> first_stage_after StepLoadShape_stages 130
       = Some \<lparr>duration = 180, users = 50, spawn_rate = 5\<rparr>
   \<and> SpikeLoadShape_tick 45 = Some (100, 20)
   \<and> StepLoadShape_tick 300 = None
   \<and> SpikeLoadShape_tick 150 = None"
proof -
  have a: "first_stage_after StepLoadShape_stages 130
             = Some \<lparr>duration = 180, users = 50, spawn_rate = 5\<rparr>"
    by (simp add: first_stage_after_def StepLoadShape_stages_def)
  have b: "first_stage_after SpikeLoadShape_stages 45
             = Some \<lparr>duration = 60, users = 100, spawn_rate = 20\<rparr>"
    by (simp add: first_stage_after_def SpikeLoadShape_stages_def)
  have "StepLoadShape_tick 130 = Some (50, 5)"
    using tick_first_stage [of 130] by (simp only: a option.map command_of_def stage.simps)
  moreover have "SpikeLoadShape_tick 45 = Some (100, 20)"
    using tick_first_stage [of 45] by (simp only: b option.map command_of_def stage.simps)
  moreover have "StepLoadShape_tick 300 = None"
  proof -
    have "(300::real) \<le> 300" by simp
    with tick_first_stage [of 300] show ?thesis by blast
  qed
  moreover have "SpikeLoadShape_tick 150 = None"
  proof -
    have "(150::real) \<le> 150" by simp
    with tick_first_stage [of 150] show ?thesis by blast
  qed
  ultimately show ?thesis
    using a by simp
qed

text \<open>
  Claim C10. For the step shape the commanded user count never goes down while the
  test runs: for run times \<open>t1 \<le> t2 < 300\<close> both calls of \<^verbatim>\<open>tick\<close> return a pair, the
  user count at \<open>t1\<close> is at most the user count at \<open>t2\<close>, and the counts come from
  10, 25, 50, 75, 100.
\<close>

theorem StepLoadShape_users_mono:
  assumes "t1 \<le> t2" and "t2 < 300"
  shows "\<exists>u1 r1 u2 r2.
           StepLoadShape_tick t1 = Some (u1, r1) \<and> StepLoadShape_tick t2 = Some (u2, r2)
           \<and> u1 \<le> u2 \<and> u1 \<in> {10, 25, 50, 75, 100} \<and> u2 \<in> {10, 25, 50, 75, 100}"
  using assms by (simp add: StepLoadShape_tick_cases)

theorem StepLoadShape_users_mono_witness:
  "(59::real) \<le> 61 \<and> (61::real) < 300
   \<and> StepLoadShape_tick 59 = Some (10, 2) \<and> StepLoadShape_tick 61 = Some (25, 3)"
proof -
  have h1: "(59::real) \<le> 61" and h2: "(61::real) < 300" by simp_all
  have c59: "StepLoadShape_tick 59 = Some (10, 2)"
    by (simp add: StepLoadShape_tick_cases)
  show ?thesis
    using StepLoadShape_users_mono [OF h1 h2] c59
    by (simp add: StepLoadShape_tick_cases)
qed

section \<open>The library calls\<close>

lemma randint_1_3: "1 \<le> randint 1 3 r \<and> randint 1 3 r \<le> 3"
  by (simp add: randint_def)

lemma length_items: "length items = 5"
  by (simp add: items_def)

lemma distinct_items: "distinct items"
  by (simp add: items_def)

lemma valid_items: "list_all valid_item items"
  by (simp add: items_def valid_item_def)

lemma sample_from_length: "length (sample_from pool k rng) = k"
  by (induction pool k rng rule: sample_from.induct) (simp_all add: Let_def)

lemma distinct_remove_nth:
  assumes "distinct pool" and "j < length pool"
  shows "distinct (take j pool @ drop (Suc j) pool)"
    and "pool ! j \<notin> set (take j pool @ drop (Suc j) pool)"
    and "set (take j pool @ drop (Suc j) pool) \<subseteq> set pool"
proof -
  from assms(2) have eq: "pool = take j pool @ pool ! j # drop (Suc j) pool"
    by (rule id_take_nth_drop)
  from assms(1) have d: "distinct (take j pool @ pool ! j # drop (Suc j) pool)"
    using eq by simp
  from d show "distinct (take j pool @ drop (Suc j) pool)" by auto
  from d show "pool ! j \<notin> set (take j pool @ drop (Suc j) pool)" by auto
  show "set (take j pool @ drop (Suc j) pool) \<subseteq> set pool"
    by (auto dest: in_set_takeD in_set_dropD)
qed

lemma sample_from_distinct:
  "distinct pool \<Longrightarrow> k \<le> length pool \<Longrightarrow>
     distinct (sample_from pool k rng) \<and> set (sample_from pool k rng) \<subseteq> set pool"
proof (induction pool k rng rule: sample_from.induct)
  case (1 pool rng)
  then show ?case by simp
next
  case (2 pool k rng)
  let ?j = "rng 0 mod length pool"
  let ?rest = "take ?j pool @ drop (Suc ?j) pool"
  from "2.prems"(2) have "0 < length pool" by linarith
  then have j: "?j < length pool" by (rule mod_less_divisor)
  have len: "length ?rest = length pool - 1" using j by simp
  have ih: "distinct (sample_from ?rest k (\<lambda>i. rng (Suc i)))
            \<and> set (sample_from ?rest k (\<lambda>i. rng (Suc i))) \<subseteq> set ?rest"
    using "2.IH" [of ?j] distinct_remove_nth(1) [OF "2.prems"(1) j] "2.prems"(2) len
    by simp
  from ih distinct_remove_nth [OF "2.prems"(1) j] j
  show ?case by (auto simp: Let_def)
qed

lemma sample_Inr:
  "0 \<le> k \<Longrightarrow> k \<le> int (length population) \<Longrightarrow>
     sample population k rng = Inr (sample_from population (nat k) rng)"
  by (simp add: sample_def)

lemma sample_from_items:
  assumes "k \<le> 5"
  shows "length (sample_from items k rng) = k \<and> catalogue_sample (sample_from items k rng)"
proof -
  have "distinct (sample_from items k rng) \<and> set (sample_from items k rng) \<subseteq> set items"
    using assms by (intro sample_from_distinct) (simp_all add: distinct_items length_items)
  moreover from this valid_items have "list_all valid_item (sample_from items k rng)"
    by (auto simp: list_all_iff)
  ultimately show ?thesis
    by (simp add: catalogue_sample_def sample_from_length)
qed

lemma sample_randint:
  "sample items (randint 1 3 r) rng = Inr (sample_from items (nat (randint 1 3 r)) rng)"
  using randint_1_3 [of r] by (intro sample_Inr) (simp_all add: length_items)

lemma choice_Inr:
  "seq \<noteq> [] \<Longrightarrow> \<exists>x \<in> set seq. choice seq r = Inr x"
  by (simp add: choice_def)

section \<open>What one call does\<close>

lemma create_order_call:
  "\<exists>c. create_order self st rng response = Inr c
       \<and> sent c = Post [Lit ''/order/create'']
                    (sample_from items (nat (randint 1 3 (rng 0))) (\<lambda>i. rng (Suc i)))
                    ''/order/create''
       \<and> after c = cached self st response"
  unfolding create_order_def Let_def sample_randint
  by (auto simp: cached_def served_order_id_def dict_get_def
           split: sum.splits json_value.splits option.splits)

lemma create_order_marks:
  assumes "create_order self st rng response = Inr c"
  shows "marks c =
     (if status_code response = 200 then
        (case json response of
           Inl e \<Rightarrow> [Failure [Lit ''Failed to parse response'']]
         | Inr order_data \<Rightarrow>
             (case order_data of
                JObject kvs \<Rightarrow> [Success]
              | _ \<Rightarrow> [Failure [Lit ''Failed to parse response'']]))
      else [Failure [Lit ''Got status '', Fmt_int (status_code response)]])"
  using assms
  unfolding create_order_def Let_def sample_randint
  by (auto simp: dict_get_def split: sum.splits json_value.splits if_splits)

lemma create_valid_order_sample:
  "sample items (min (case num_items of None \<Rightarrow> randint 1 3 r | Some n \<Rightarrow> n) (int (length items))) rng
     = (case num_items of
          None \<Rightarrow> Inr (sample_from items (nat (randint 1 3 r)) rng)
        | Some n \<Rightarrow> if n < 0 then Inl ValueError else Inr (sample_from items (nat (min n 5)) rng))"
  using randint_1_3 [of r]
  by (auto simp: sample_def length_items min_def split: option.splits)

lemma create_valid_order_raises:
  "create_valid_order self st num_items rng response = Inl e
     \<longleftrightarrow> e = ValueError \<and> (\<exists>n. num_items = Some n \<and> n < 0)"
  unfolding create_valid_order_def Let_def create_valid_order_sample
  by (auto split: sum.splits option.splits)

lemma create_valid_order_call:
  assumes "create_valid_order self st num_items rng response = Inr c"
  shows "sent c = Post [Lit ''/order/create'']
                    (sample_from items
                       (case num_items of None \<Rightarrow> nat (randint 1 3 (rng 0)) | Some n \<Rightarrow> nat (min n 5))
                       (\<lambda>i. rng (Suc i)))
                    ''/order/create''"
    and "after c = cached self st response"
  using assms
  unfolding create_valid_order_def Let_def create_valid_order_sample
  by (auto simp: cached_def served_order_id_def dict_get_def
           split: sum.splits json_value.splits option.splits if_splits)

lemma create_valid_order_returns:
  assumes "reaches_post num_items"
  shows "\<exists>c. create_valid_order self st num_items rng response = Inr c"
proof (cases "create_valid_order self st num_items rng response")
  case (Inl e)
  with assms show ?thesis
    by (auto simp: create_valid_order_raises reaches_post_def)
next
  case (Inr c)
  then show ?thesis by blast
qed

lemma create_valid_order_marks_eq:
  assumes "create_valid_order self st num_items rng response = Inr c"
  shows "marks c =
     (if status_code response = 200 then
        (case json response of
           Inl e \<Rightarrow> [Failure [Lit ''Failed to parse response: '', Fmt_exn e]]
         | Inr order_data \<Rightarrow>
             (case order_data of
                JObject kvs \<Rightarrow> [Success]
              | _ \<Rightarrow> [Failure [Lit ''Failed to parse response: '', Fmt_exn AttributeError]]))
      else if 500 \<le> status_code response then [Success]
      else [Failure [Lit ''Got status '', Fmt_int (status_code response)]])"
  using assms
  unfolding create_valid_order_def Let_def create_valid_order_sample
  by (auto simp: dict_get_def split: sum.splits json_value.splits if_splits option.splits)

lemma get_order_call:
  "\<exists>c. get_order self st rng = Inr c \<and> marks c = [] \<and> after c = st
       \<and> (if order_ids self st = []
           then sent c = Get [Lit ''/order/dummy-order-id''] ''/order/:orderId''
           else \<exists>order_id \<in> set (order_ids self st).
                  sent c = Get [Lit ''/order/'', Fmt_json order_id] ''/order/:orderId'')"
  using choice_Inr [of "order_ids self st" "rng 0"]
  by (auto simp: get_order_def)

lemma get_order_details_call:
  "\<exists>c. get_order_details self st rng = Inr c \<and> marks c = [] \<and> after c = st
       \<and> (if order_ids self st = []
           then sent c = Get [Lit ''/order/dummy-order-id''] ''/order/:orderId''
           else \<exists>order_id \<in> set (order_ids self st).
                  sent c = Get [Lit ''/order/'', Fmt_json order_id] ''/order/:orderId'')"
  using choice_Inr [of "order_ids self st" "rng 0"]
  by (auto simp: get_order_details_def)

section \<open>Steps and runs\<close>

lemma step_create_order:
  "step st (Create_order self rng response) = cached self st response"
  using create_order_call [of self st rng response] by (auto simp: step_def)

lemma step_create_valid_order:
  "step st (Create_valid_order self num_items rng response)
     = (if reaches_post num_items then cached self st response else st)"
proof (cases "create_valid_order self st num_items rng response")
  case (Inl e)
  then have "\<exists>n. num_items = Some n \<and> n < 0"
    using create_valid_order_raises [of self st num_items rng response e] by blast
  then have "\<not> reaches_post num_items"
    by (auto simp: reaches_post_def)
  with Inl show ?thesis
    by (simp add: step_def)
next
  case (Inr c)
  then have "\<not> (\<exists>n. num_items = Some n \<and> n < 0)"
    using create_valid_order_raises [of self st num_items rng response ValueError] by simp
  then have "reaches_post num_items"
    by (auto simp: reaches_post_def split: option.splits)
  with Inr create_valid_order_call(2) [OF Inr] show ?thesis
    by (simp add: step_def)
qed

lemma step_get_order: "step st (Get_order self rng) = st"
  using get_order_call [of self st rng] by (auto simp: step_def)

lemma step_get_order_details: "step st (Get_order_details self rng) = st"
  using get_order_details_call [of self st rng] by (auto simp: step_def)

lemma cached_length:
  "length (st r) \<le> 100 \<Longrightarrow> length (cached self st response r) \<le> 100"
  by (auto simp: cached_def order_ids_def split: option.splits)

lemma cached_set:
  "set (cached self st response r) \<subseteq> set (st r) \<union> {v. served_order_id response = Some v}"
  by (auto simp: cached_def order_ids_def split: option.splits if_splits)

lemma step_length:
  "length (st r) \<le> 100 \<Longrightarrow> length (step st t r) \<le> 100"
  by (cases t)
     (simp_all add: step_create_order step_create_valid_order step_get_order
        step_get_order_details cached_length)

lemma step_set:
  "set (step st t r) \<subseteq> set (st r) \<union> {v. \<exists>response \<in> set (answered t). served_order_id response = Some v}"
proof (cases t)
  case (Create_order self rng response)
  then show ?thesis using cached_set [of self st response r]
    by (simp add: step_create_order)
next
  case (Create_valid_order self num_items rng response)
  then show ?thesis using cached_set [of self st response r]
    by (auto simp: step_create_valid_order)
qed (simp_all add: step_get_order step_get_order_details)

lemma run_length:
  "\<forall>r. length (st r) \<le> 100 \<Longrightarrow> length (run st ts r) \<le> 100"
  unfolding run_def
proof (induction ts arbitrary: st)
  case Nil
  then show ?case by simp
next
  case (Cons t ts)
  from Cons.prems have "\<forall>r. length (step st t r) \<le> 100"
    by (simp add: step_length)
  from Cons.IH [OF this] show ?case by simp
qed

lemma run_set: "set (run st ts r) \<subseteq> set (st r) \<union> served ts"
  unfolding run_def
proof (induction ts arbitrary: st)
  case Nil
  then show ?case by simp
next
  case (Cons t ts)
  have "set (foldl step (step st t) ts r) \<subseteq> set (step st t r) \<union> served ts"
    by (rule Cons.IH)
  also have "\<dots> \<subseteq> set (st r) \<union> served (t # ts)"
    using step_set [of st t r] by (auto simp: served_def)
  finally show ?case by simp
qed

section \<open>The list of order identifiers is a class attribute\<close>

text \<open>
  Claim C1, as the code has it. The list is not local to an instance: \<^verbatim>\<open>order_ids\<close> is
  a class attribute, one list object for all instances of \<^verbatim>\<open>OrderServiceUser\<close> and one
  for all instances of \<^verbatim>\<open>ResilienceTestUser\<close> and of its subclasses. When a creation
  task of one instance appends an identifier (the response serves one and the list
  holds fewer than 100), every other instance whose class resolves \<^verbatim>\<open>order_ids\<close> to the
  same class attribute reads the list with the identifier appended, whatever its
  identity; only the instances of the other class family read an unchanged list. Two
  classes resolve to the same attribute exactly when both are \<^verbatim>\<open>OrderServiceUser\<close> or
  neither is.
\<close>

theorem order_ids_shared_by_class:
  assumes "served_order_id response = Some v"
    and "length (order_ids self st) < 100"
    and "reaches_post num_items"
  shows "order_ids other (step st (Create_order self rng response))
           = (if order_ids_ref (cls_of other) = order_ids_ref (cls_of self)
              then order_ids other st @ [v] else order_ids other st)
       \<and> order_ids other (step st (Create_valid_order self num_items rng response))
           = (if order_ids_ref (cls_of other) = order_ids_ref (cls_of self)
              then order_ids other st @ [v] else order_ids other st)
       \<and> (order_ids_ref (cls_of other) = order_ids_ref (cls_of self)
            \<longleftrightarrow> (cls_of other = OrderServiceUser \<longleftrightarrow> cls_of self = OrderServiceUser))"
proof -
  have "order_ids other (cached self st response)
          = (if order_ids_ref (cls_of other) = order_ids_ref (cls_of self)
             then order_ids other st @ [v] else order_ids other st)"
    using assms(1,2) by (simp add: cached_def order_ids_def)
  moreover have "order_ids_ref (cls_of other) = order_ids_ref (cls_of self)
            \<longleftrightarrow> (cls_of other = OrderServiceUser \<longleftrightarrow> cls_of self = OrderServiceUser)"
    by (cases "cls_of other"; cases "cls_of self") simp_all
  ultimately show ?thesis
    using assms(3) by (simp add: step_create_order step_create_valid_order)
qed

theorem order_ids_shared_by_class_witness:
  "served_order_id \<lparr>status_code = 200, json = Inr (JObject [(''order_id'', JString ''order-7'')])\<rparr>
     = Some (JString ''order-7'')
   \<and> order_ids \<lparr>ident = 2, cls_of = OrderServiceUser\<rparr>
        (step empty_store
           (Create_order \<lparr>ident = 1, cls_of = OrderServiceUser\<rparr> first_choices
              \<lparr>status_code = 200, json = Inr (JObject [(''order_id'', JString ''order-7'')])\<rparr>))
       = [JString ''order-7'']
   \<and> order_ids \<lparr>ident = 4, cls_of = FailFastUser\<rparr>
        (step empty_store
           (Create_valid_order \<lparr>ident = 3, cls_of = BulkheadUser\<rparr> None first_choices
              \<lparr>status_code = 200, json = Inr (JObject [(''order_id'', JString ''order-7'')])\<rparr>))
       = [JString ''order-7'']"
proof -
  let ?ok = "\<lparr>status_code = 200, json = Inr (JObject [(''order_id'', JString ''order-7'')])\<rparr>"
  have h1: "served_order_id ?ok = Some (JString ''order-7'')"
    by (simp add: served_order_id_def)
  have h2: "length (order_ids \<lparr>ident = 1, cls_of = OrderServiceUser\<rparr> empty_store) < 100"
    by (simp add: order_ids_def empty_store_def)
  have h2': "length (order_ids \<lparr>ident = 3, cls_of = BulkheadUser\<rparr> empty_store) < 100"
    by (simp add: order_ids_def empty_store_def)
  have h3: "reaches_post None"
    by (simp add: reaches_post_def)
  have "order_ids \<lparr>ident = 2, cls_of = OrderServiceUser\<rparr>
          (step empty_store (Create_order \<lparr>ident = 1, cls_of = OrderServiceUser\<rparr> first_choices ?ok))
        = [JString ''order-7'']"
    using order_ids_shared_by_class [OF h1 h2 h3,
        where other = "\<lparr>ident = 2, cls_of = OrderServiceUser\<rparr>" and rng = first_choices]
    by (simp add: order_ids_def empty_store_def)
  moreover have "order_ids \<lparr>ident = 4, cls_of = FailFastUser\<rparr>
          (step empty_store
             (Create_valid_order \<lparr>ident = 3, cls_of = BulkheadUser\<rparr> None first_choices ?ok))
        = [JString ''order-7'']"
    using order_ids_shared_by_class [OF h1 h2' h3,
        where other = "\<lparr>ident = 4, cls_of = FailFastUser\<rparr>" and rng = first_choices]
    by (simp add: order_ids_def empty_store_def)
  ultimately show ?thesis using h1 by simp
qed

text \<open>
  Claim C1 as the specification states it fails. Two distinct instances of
  \<^verbatim>\<open>OrderServiceUser\<close>, both reading an empty list: the first runs \<^verbatim>\<open>create_order\<close> and
  the service answers 200 with \<^verbatim>\<open>{"order_id": "order-1"}\<close>; afterwards the second reads
  a list that holds \<^verbatim>\<open>"order-1"\<close>.
\<close>

theorem order_ids_local_counterexample:
  "ident \<lparr>ident = 1, cls_of = OrderServiceUser\<rparr> \<noteq> ident \<lparr>ident = 2, cls_of = OrderServiceUser\<rparr>
   \<and> order_ids \<lparr>ident = 2, cls_of = OrderServiceUser\<rparr> empty_store = []
   \<and> order_ids \<lparr>ident = 2, cls_of = OrderServiceUser\<rparr>
        (step empty_store
           (Create_order \<lparr>ident = 1, cls_of = OrderServiceUser\<rparr> first_choices
              \<lparr>status_code = 200, json = Inr (JObject [(''order_id'', JString ''order-1'')])\<rparr>))
       = [JString ''order-1'']"
  by (simp add: step_def create_order_def first_choices_def randint_def sample_def items_def
        dict_get_def order_ids_def empty_store_def)

section \<open>The bound of 100 entries\<close>

text \<open>
  Claim C2. From a store whose lists hold at most 100 entries, every sequence of
  tasks (by any instances, with any random draws and any responses) leaves lists of
  at most 100 entries, so the list an instance reads never exceeds 100; and a
  creation task changes the store only when the list it reads is shorter than 100.
\<close>

theorem order_ids_at_most_100:
  assumes "\<forall>r. length (st r) \<le> 100"
  shows "(\<forall>r. length (run st ts r) \<le> 100)
       \<and> length (order_ids self (run st ts)) \<le> 100
       \<and> (step st (Create_order self rng response) \<noteq> st
            \<longrightarrow> length (order_ids self st) < 100)
       \<and> (step st (Create_valid_order self num_items rng response) \<noteq> st
            \<longrightarrow> length (order_ids self st) < 100)"
proof -
  have bound: "\<forall>r. length (run st ts r) \<le> 100"
    using run_length [OF assms] by blast
  then have "length (order_ids self (run st ts)) \<le> 100"
    by (simp add: order_ids_def)
  moreover have "cached self st response \<noteq> st \<longrightarrow> length (order_ids self st) < 100"
    by (auto simp: cached_def split: option.splits if_splits)
  ultimately show ?thesis
    using bound by (simp add: step_create_order step_create_valid_order)
qed

theorem order_ids_at_most_100_witness:
  "(\<forall>r. length (full_store r) \<le> 100)
   \<and> length (order_ids \<lparr>ident = 1, cls_of = OrderServiceUser\<rparr>
        (run full_store
           [Create_order \<lparr>ident = 1, cls_of = OrderServiceUser\<rparr> first_choices
              \<lparr>status_code = 200, json = Inr (JObject [(''order_id'', JString ''order-7'')])\<rparr>]))
       \<le> 100
   \<and> step full_store
        (Create_order \<lparr>ident = 1, cls_of = OrderServiceUser\<rparr> first_choices
           \<lparr>status_code = 200, json = Inr (JObject [(''order_id'', JString ''order-7'')])\<rparr>)
       = full_store"
proof -
  have h: "\<forall>r. length (full_store r) \<le> 100"
    by (simp add: full_store_def)
  have full: "\<not> length (order_ids \<lparr>ident = 1, cls_of = OrderServiceUser\<rparr> full_store) < 100"
    by (simp add: order_ids_def full_store_def)
  from order_ids_at_most_100 [OF h] full h show ?thesis
    by blast
qed

section \<open>Marks of the chaos scenarios\<close>

text \<open>
  Claim C3, as the code has it. A call of \<^verbatim>\<open>create_valid_order\<close> that reaches the POST
  (\<^verbatim>\<open>num_items\<close> left out or not negative) returns, and it marks the response a
  success if and only if the status code is 500 or greater, or the status code is 200
  and the body parses to a JSON object, the one kind of value on which
  \<^verbatim>\<open>order_data.get\<close> does not raise. In every other case it sets exactly one failure
  mark.
\<close>

theorem create_valid_order_marks:
  assumes "reaches_post num_items"
  shows "\<exists>c. create_valid_order self st num_items rng response = Inr c
           \<and> (marks c = [Success] \<longleftrightarrow>
                 500 \<le> status_code response
                 \<or> status_code response = 200 \<and> (\<exists>kvs. json response = Inr (JObject kvs)))
           \<and> (marks c = [Success] \<or> (\<exists>message. marks c = [Failure message]))"
proof -
  from create_valid_order_returns [OF assms]
  obtain c where c: "create_valid_order self st num_items rng response = Inr c" by blast
  note m = create_valid_order_marks_eq [OF c]
  have "marks c = [Success] \<longleftrightarrow>
          500 \<le> status_code response
          \<or> status_code response = 200 \<and> (\<exists>kvs. json response = Inr (JObject kvs))"
    unfolding m by (auto split: sum.splits json_value.splits)
  moreover have "marks c = [Success] \<or> (\<exists>message. marks c = [Failure message])"
    unfolding m by (auto split: sum.splits json_value.splits)
  ultimately show ?thesis using c by blast
qed

theorem create_valid_order_marks_witness:
  "reaches_post None
   \<and> (\<exists>c. create_valid_order \<lparr>ident = 1, cls_of = NormalOperationUser\<rparr> empty_store None
              first_choices \<lparr>status_code = 200, json = Inr (JObject [])\<rparr> = Inr c
          \<and> marks c = [Success])
   \<and> (\<exists>c. create_valid_order \<lparr>ident = 1, cls_of = NormalOperationUser\<rparr> empty_store None
              first_choices \<lparr>status_code = 404, json = Inr (JObject [])\<rparr> = Inr c
          \<and> marks c \<noteq> [Success])"
proof -
  have h: "reaches_post None"
    by (simp add: reaches_post_def)
  have "\<exists>c. create_valid_order \<lparr>ident = 1, cls_of = NormalOperationUser\<rparr> empty_store None
              first_choices \<lparr>status_code = 200, json = Inr (JObject [])\<rparr> = Inr c
          \<and> marks c = [Success]"
    using create_valid_order_marks [OF h, of "\<lparr>ident = 1, cls_of = NormalOperationUser\<rparr>"
        empty_store first_choices "\<lparr>status_code = 200, json = Inr (JObject [])\<rparr>"]
    by auto
  moreover have "\<exists>c. create_valid_order \<lparr>ident = 1, cls_of = NormalOperationUser\<rparr> empty_store None
              first_choices \<lparr>status_code = 404, json = Inr (JObject [])\<rparr> = Inr c
          \<and> marks c \<noteq> [Success]"
    using create_valid_order_marks [OF h, of "\<lparr>ident = 1, cls_of = NormalOperationUser\<rparr>"
        empty_store first_choices "\<lparr>status_code = 404, json = Inr (JObject [])\<rparr>"]
    by auto
  ultimately show ?thesis using h by simp
qed

text \<open>
  Claim C3 as the specification states it fails. The service answers 200 with the
  body \<^verbatim>\<open>[]\<close>, which parses as JSON (to an empty list). \<^verbatim>\<open>order_data.get\<close> raises
  \<^verbatim>\<open>AttributeError\<close> inside the \<^verbatim>\<open>try\<close>, and the response is marked a failure.
\<close>

theorem create_valid_order_marks_counterexample:
  "create_valid_order \<lparr>ident = 1, cls_of = NormalOperationUser\<rparr> empty_store None first_choices
      \<lparr>status_code = 200, json = Inr (JArray [])\<rparr>
   = Inr \<lparr>sent = Post [Lit ''/order/create'']
                   [\<lparr>item_id = ''item-1'', quantity = 1, price = 999.99\<rparr>] ''/order/create'',
          marks = [Failure [Lit ''Failed to parse response: '', Fmt_exn AttributeError]],
          after = empty_store\<rparr>"
  by (simp add: create_valid_order_def first_choices_def randint_def sample_def items_def
        dict_get_def)

section \<open>Marks of the fail-fast scenario\<close>

text \<open>
  Claim C4. Each of the four tasks of \<^verbatim>\<open>FailFastUser\<close> marks the response a success if
  and only if the status code is 400, and sets the failure mark
  \<^verbatim>\<open>Expected 400, got <status>\<close> otherwise; none changes the store. The payloads are
  the empty list of items, an item of quantity 0, an item of price -10 and an item
  with an empty \<^verbatim>\<open>item_id\<close>.
\<close>

theorem fail_fast_marks:
  assumes "t \<in> {empty_order, invalid_quantity, invalid_price, missing_item_id}"
  shows "(marks (t self st response) = [Success] \<longleftrightarrow> status_code response = 400)
       \<and> (marks (t self st response) = [Success]
          \<or> marks (t self st response)
              = [Failure [Lit ''Expected 400, got '', Fmt_int (status_code response)]])
       \<and> after (t self st response) = st
       \<and> payload (sent (empty_order self st response)) = []
       \<and> map quantity (payload (sent (invalid_quantity self st response))) = [0]
       \<and> map price (payload (sent (invalid_price self st response))) = [- 10]
       \<and> map item_id (payload (sent (missing_item_id self st response))) = ['''']"
  using assms
  by (auto simp: empty_order_def invalid_quantity_def invalid_price_def missing_item_id_def
           split: if_splits)

theorem fail_fast_marks_witness:
  "invalid_price \<in> {empty_order, invalid_quantity, invalid_price, missing_item_id}
   \<and> marks (invalid_price \<lparr>ident = 1, cls_of = FailFastUser\<rparr> empty_store
               \<lparr>status_code = 400, json = Inl JSONDecodeError\<rparr>) = [Success]
   \<and> marks (invalid_price \<lparr>ident = 1, cls_of = FailFastUser\<rparr> empty_store
               \<lparr>status_code = 200, json = Inl JSONDecodeError\<rparr>)
       = [Failure [Lit ''Expected 400, got '', Fmt_int 200]]"
proof -
  have h: "invalid_price \<in> {empty_order, invalid_quantity, invalid_price, missing_item_id}"
    by simp
  have "marks (invalid_price \<lparr>ident = 1, cls_of = FailFastUser\<rparr> empty_store
               \<lparr>status_code = 400, json = Inl JSONDecodeError\<rparr>) = [Success]"
    using fail_fast_marks [OF h, of "\<lparr>ident = 1, cls_of = FailFastUser\<rparr>" empty_store
        "\<lparr>status_code = 400, json = Inl JSONDecodeError\<rparr>"]
    by simp
  moreover have "marks (invalid_price \<lparr>ident = 1, cls_of = FailFastUser\<rparr> empty_store
               \<lparr>status_code = 200, json = Inl JSONDecodeError\<rparr>)
       = [Failure [Lit ''Expected 400, got '', Fmt_int 200]]"
    using fail_fast_marks [OF h, of "\<lparr>ident = 1, cls_of = FailFastUser\<rparr>" empty_store
        "\<lparr>status_code = 200, json = Inl JSONDecodeError\<rparr>"]
    by auto
  ultimately show ?thesis using h by simp
qed

section \<open>Exceptions of the parser\<close>

text \<open>
  Claim C5. When the status code is 200 and \<^verbatim>\<open>response.json()\<close> raises, both
  \<^verbatim>\<open>create_order\<close> and \<^verbatim>\<open>create_valid_order\<close> (in a call that reaches the POST) return
  normally: the exception does not leave the method, exactly one failure mark is set
  on the response, and the store is the one the call found.
\<close>

theorem parse_exception_caught:
  assumes "status_code response = 200" and "json response = Inl e"
    and "reaches_post num_items"
  shows "(\<exists>request. create_order self st rng response =
            Inr \<lparr>sent = request, marks = [Failure [Lit ''Failed to parse response'']], after = st\<rparr>)
       \<and> (\<exists>request. create_valid_order self st num_items rng response =
            Inr \<lparr>sent = request,
                 marks = [Failure [Lit ''Failed to parse response: '', Fmt_exn e]],
                 after = st\<rparr>)"
proof -
  have served: "served_order_id response = None"
    using assms(2) by (simp add: served_order_id_def)
  obtain c where c: "create_order self st rng response = Inr c"
    and "after c = cached self st response"
    using create_order_call [of self st rng response] by blast
  then have "after c = st" by (simp add: cached_def served)
  moreover have "marks c = [Failure [Lit ''Failed to parse response'']]"
    using create_order_marks [OF c] assms(1,2) by simp
  ultimately have "c = \<lparr>sent = sent c, marks = [Failure [Lit ''Failed to parse response'']], after = st\<rparr>"
    by simp
  with c have first: "\<exists>request. create_order self st rng response =
            Inr \<lparr>sent = request, marks = [Failure [Lit ''Failed to parse response'']], after = st\<rparr>"
    by metis
  obtain d where d: "create_valid_order self st num_items rng response = Inr d"
    using create_valid_order_returns [OF assms(3)] by blast
  have "after d = st"
    using create_valid_order_call(2) [OF d] by (simp add: cached_def served)
  moreover have "marks d = [Failure [Lit ''Failed to parse response: '', Fmt_exn e]]"
    using create_valid_order_marks_eq [OF d] assms(1,2) by simp
  ultimately have "d = \<lparr>sent = sent d,
      marks = [Failure [Lit ''Failed to parse response: '', Fmt_exn e]], after = st\<rparr>"
    by simp
  with d have "\<exists>request. create_valid_order self st num_items rng response =
            Inr \<lparr>sent = request,
                 marks = [Failure [Lit ''Failed to parse response: '', Fmt_exn e]],
                 after = st\<rparr>"
    by metis
  with first show ?thesis by blast
qed

theorem parse_exception_caught_witness:
  "reaches_post None
   \<and> (\<exists>request. create_order \<lparr>ident = 1, cls_of = OrderServiceUser\<rparr> full_store first_choices
          \<lparr>status_code = 200, json = Inl JSONDecodeError\<rparr>
        = Inr \<lparr>sent = request, marks = [Failure [Lit ''Failed to parse response'']],
               after = full_store\<rparr>)
   \<and> (\<exists>request. create_valid_order \<lparr>ident = 2, cls_of = CombinedChaosUser\<rparr> full_store None
          first_choices \<lparr>status_code = 200, json = Inl JSONDecodeError\<rparr>
        = Inr \<lparr>sent = request,
               marks = [Failure [Lit ''Failed to parse response: '', Fmt_exn JSONDecodeError]],
               after = full_store\<rparr>)"
proof -
  let ?bad = "\<lparr>status_code = 200, json = Inl JSONDecodeError\<rparr>"
  have h1: "status_code ?bad = 200" and h2: "json ?bad = Inl JSONDecodeError"
    by simp_all
  have h3: "reaches_post None"
    by (simp add: reaches_post_def)
  have "\<exists>request. create_order \<lparr>ident = 1, cls_of = OrderServiceUser\<rparr> full_store first_choices ?bad
        = Inr \<lparr>sent = request, marks = [Failure [Lit ''Failed to parse response'']],
               after = full_store\<rparr>"
    using parse_exception_caught [OF h1 h2 h3,
        where self = "\<lparr>ident = 1, cls_of = OrderServiceUser\<rparr>" and st = full_store
          and rng = first_choices]
    by blast
  moreover have "\<exists>request. create_valid_order \<lparr>ident = 2, cls_of = CombinedChaosUser\<rparr> full_store
          None first_choices ?bad
        = Inr \<lparr>sent = request,
               marks = [Failure [Lit ''Failed to parse response: '', Fmt_exn JSONDecodeError]],
               after = full_store\<rparr>"
    using parse_exception_caught [OF h1 h2 h3,
        where self = "\<lparr>ident = 2, cls_of = CombinedChaosUser\<rparr>" and st = full_store
          and rng = first_choices]
    by blast
  ultimately show ?thesis using h3 by blast
qed

section \<open>The payloads of the creation tasks\<close>

text \<open>
  Claim C6. Every payload that \<^verbatim>\<open>create_order\<close> sends, and every payload that
  \<^verbatim>\<open>create_valid_order\<close> sends when it is called as every call in the repository calls
  it, with \<^verbatim>\<open>num_items\<close> left out, is a non-empty list of 1 to 3 distinct items of the
  five-item catalogue, and each item in it has a non-empty \<^verbatim>\<open>item_id\<close>, a positive
  quantity and a positive price. Both calls always reach the POST.
\<close>

theorem payload_catalogue_sample:
  "(\<exists>c. create_order self st rng response = Inr c
        \<and> payload (sent c) \<noteq> []
        \<and> 1 \<le> length (payload (sent c)) \<and> length (payload (sent c)) \<le> 3
        \<and> catalogue_sample (payload (sent c)))
   \<and> (\<exists>c. create_valid_order self st None rng response = Inr c
        \<and> payload (sent c) \<noteq> []
        \<and> 1 \<le> length (payload (sent c)) \<and> length (payload (sent c)) \<le> 3
        \<and> catalogue_sample (payload (sent c)))
   \<and> length items = 5"
proof -
  let ?k = "nat (randint 1 3 (rng 0))"
  let ?rng = "\<lambda>i. rng (Suc i)"
  let ?drawn = "sample_from items ?k ?rng"
  have k: "1 \<le> ?k \<and> ?k \<le> 3"
    using randint_1_3 [of "rng 0"] by arith
  then have "?k \<le> 5" by simp
  from sample_from_items [OF this, of ?rng]
  have len: "length ?drawn = ?k" and sample: "catalogue_sample ?drawn"
    by simp_all
  from len k have good: "?drawn \<noteq> [] \<and> 1 \<le> length ?drawn \<and> length ?drawn \<le> 3"
    by auto
  obtain c where c: "create_order self st rng response = Inr c"
    and "payload (sent c) = ?drawn"
    using create_order_call [of self st rng response] by auto
  with good sample have first: "\<exists>c. create_order self st rng response = Inr c
        \<and> payload (sent c) \<noteq> []
        \<and> 1 \<le> length (payload (sent c)) \<and> length (payload (sent c)) \<le> 3
        \<and> catalogue_sample (payload (sent c))"
    by auto
  have "reaches_post None"
    by (simp add: reaches_post_def)
  from create_valid_order_returns [OF this]
  obtain d where d: "create_valid_order self st None rng response = Inr d"
    by blast
  from create_valid_order_call(1) [OF d] have "payload (sent d) = ?drawn"
    by simp
  with good sample d have "\<exists>c. create_valid_order self st None rng response = Inr c
        \<and> payload (sent c) \<noteq> []
        \<and> 1 \<le> length (payload (sent c)) \<and> length (payload (sent c)) \<le> 3
        \<and> catalogue_sample (payload (sent c))"
    by auto
  with first show ?thesis
    by (simp add: length_items)
qed

theorem payload_catalogue_sample_witness:
  "(\<exists>c. create_order \<lparr>ident = 1, cls_of = OrderServiceUser\<rparr> empty_store first_choices
            \<lparr>status_code = 200, json = Inr (JObject [])\<rparr> = Inr c
        \<and> payload (sent c) \<noteq> []
        \<and> length (payload (sent c)) \<le> 3
        \<and> catalogue_sample (payload (sent c)))
   \<and> (\<exists>c. create_valid_order \<lparr>ident = 2, cls_of = NormalOperationUser\<rparr> empty_store None
            first_choices \<lparr>status_code = 503, json = Inl JSONDecodeError\<rparr> = Inr c
        \<and> payload (sent c) \<noteq> []
        \<and> length (payload (sent c)) \<le> 3
        \<and> catalogue_sample (payload (sent c)))"
proof -
  have "\<exists>c. create_order \<lparr>ident = 1, cls_of = OrderServiceUser\<rparr> empty_store first_choices
            \<lparr>status_code = 200, json = Inr (JObject [])\<rparr> = Inr c
        \<and> payload (sent c) \<noteq> []
        \<and> length (payload (sent c)) \<le> 3
        \<and> catalogue_sample (payload (sent c))"
    using payload_catalogue_sample [of "\<lparr>ident = 1, cls_of = OrderServiceUser\<rparr>" empty_store
        first_choices "\<lparr>status_code = 200, json = Inr (JObject [])\<rparr>"]
    by blast
  moreover have "\<exists>c. create_valid_order \<lparr>ident = 2, cls_of = NormalOperationUser\<rparr> empty_store
            None first_choices \<lparr>status_code = 503, json = Inl JSONDecodeError\<rparr> = Inr c
        \<and> payload (sent c) \<noteq> []
        \<and> length (payload (sent c)) \<le> 3
        \<and> catalogue_sample (payload (sent c))"
    using payload_catalogue_sample [of "\<lparr>ident = 2, cls_of = NormalOperationUser\<rparr>" empty_store
        first_choices "\<lparr>status_code = 503, json = Inl JSONDecodeError\<rparr>"]
    by blast
  ultimately show ?thesis by blast
qed

section \<open>Where the entries of the list come from\<close>

text \<open>
  Claim C7. Whatever the tasks of a run, each entry of a list is an entry the list
  held at the start or an identifier served by one of the responses to the POSTs of
  the run; the lists are empty when the classes are created, so every entry is a
  served identifier. A response serves an identifier exactly when its status code is
  200, its body parses to a JSON object, and the object holds a non-empty value under
  \<^verbatim>\<open>order_id\<close>. A creation task leaves the store that appending the served identifier
  gives; when the response serves none (another status code, a body that does not
  parse, no \<^verbatim>\<open>order_id\<close>, an empty one) it leaves the store as it found it.
\<close>

theorem order_ids_entries_served:
  "set (run st ts r) \<subseteq> set (st r) \<union> served ts
   \<and> set (run empty_store ts r) \<subseteq> served ts
   \<and> step st (Create_order self rng response) = cached self st response
   \<and> step st (Create_valid_order self num_items rng response)
       = (if reaches_post num_items then cached self st response else st)
   \<and> (served_order_id response = None \<longrightarrow> cached self st response = st)
   \<and> (served_order_id response = Some v \<longleftrightarrow>
        status_code response = 200
        \<and> (\<exists>kvs. json response = Inr (JObject kvs) \<and> map_of kvs ''order_id'' = Some v)
        \<and> truthy v)"
proof -
  have "set (run empty_store ts r) \<subseteq> served ts"
    using run_set [of empty_store ts r] by (simp add: empty_store_def)
  moreover have "served_order_id response = None \<longrightarrow> cached self st response = st"
    by (simp add: cached_def)
  moreover have "served_order_id response = Some v \<longleftrightarrow>
        status_code response = 200
        \<and> (\<exists>kvs. json response = Inr (JObject kvs) \<and> map_of kvs ''order_id'' = Some v)
        \<and> truthy v"
    by (auto simp: served_order_id_def split: sum.splits json_value.splits option.splits)
  ultimately show ?thesis
    using run_set [of st ts r]
    by (simp only: step_create_order step_create_valid_order simp_thms)
qed

theorem order_ids_entries_served_witness:
  "served_order_id \<lparr>status_code = 404, json = Inr (JObject [(''order_id'', JString ''order-7'')])\<rparr>
     = None
   \<and> step empty_store
        (Create_order \<lparr>ident = 1, cls_of = OrderServiceUser\<rparr> first_choices
           \<lparr>status_code = 404, json = Inr (JObject [(''order_id'', JString ''order-7'')])\<rparr>)
       = empty_store
   \<and> step empty_store
        (Create_valid_order \<lparr>ident = 2, cls_of = BulkheadUser\<rparr> (Some (- 1)) first_choices
           \<lparr>status_code = 200, json = Inr (JObject [(''order_id'', JString ''order-7'')])\<rparr>)
       = empty_store"
proof -
  let ?r = "\<lparr>status_code = 404, json = Inr (JObject [(''order_id'', JString ''order-7'')])\<rparr>"
  let ?ok = "\<lparr>status_code = 200, json = Inr (JObject [(''order_id'', JString ''order-7'')])\<rparr>"
  have none: "served_order_id ?r = None"
    by (simp add: served_order_id_def)
  have neg: "\<not> reaches_post (Some (- 1))"
    by (simp add: reaches_post_def)
  have "step empty_store (Create_order \<lparr>ident = 1, cls_of = OrderServiceUser\<rparr> first_choices ?r)
          = empty_store"
    using order_ids_entries_served [of empty_store "[]" OrderServiceUser_order_ids
        "\<lparr>ident = 1, cls_of = OrderServiceUser\<rparr>" first_choices ?r None] none
    by simp
  moreover have "step empty_store
        (Create_valid_order \<lparr>ident = 2, cls_of = BulkheadUser\<rparr> (Some (- 1)) first_choices ?ok)
          = empty_store"
    using order_ids_entries_served [of empty_store "[]" OrderServiceUser_order_ids
        "\<lparr>ident = 2, cls_of = BulkheadUser\<rparr>" first_choices ?ok "Some (- 1)"] neg
    by simp
  ultimately show ?thesis using none by simp
qed

section \<open>Retrieval\<close>

text \<open>
  Claim C8. \<^verbatim>\<open>get_order\<close> and \<^verbatim>\<open>get_order_details\<close> always return, and leave the store
  unchanged. When the list the instance reads is empty the request is
  \<^verbatim>\<open>GET /order/dummy-order-id\<close>; otherwise it is \<^verbatim>\<open>GET /order/{order_id}\<close> for an
  \<^verbatim>\<open>order_id\<close> that is an entry of the list.
\<close>

theorem get_order_request:
  "(\<exists>c. get_order self st rng = Inr c \<and> marks c = [] \<and> after c = st
       \<and> (if order_ids self st = []
           then sent c = Get [Lit ''/order/dummy-order-id''] ''/order/:orderId''
           else \<exists>order_id \<in> set (order_ids self st).
                  sent c = Get [Lit ''/order/'', Fmt_json order_id] ''/order/:orderId''))
   \<and> (\<exists>c. get_order_details self st rng = Inr c \<and> marks c = [] \<and> after c = st
       \<and> (if order_ids self st = []
           then sent c = Get [Lit ''/order/dummy-order-id''] ''/order/:orderId''
           else \<exists>order_id \<in> set (order_ids self st).
                  sent c = Get [Lit ''/order/'', Fmt_json order_id] ''/order/:orderId''))"
  using get_order_call [of self st rng] get_order_details_call [of self st rng]
  by (rule conjI)

theorem get_order_request_witness:
  "(\<exists>c. get_order \<lparr>ident = 1, cls_of = OrderServiceUser\<rparr> empty_store first_choices = Inr c
        \<and> sent c = Get [Lit ''/order/dummy-order-id''] ''/order/:orderId''
        \<and> after c = empty_store)
   \<and> (\<exists>c. get_order_details \<lparr>ident = 2, cls_of = CombinedChaosUser\<rparr>
              (empty_store(ResilienceTestUser_order_ids := [JString ''order-7''])) first_choices
            = Inr c
        \<and> sent c = Get [Lit ''/order/'', Fmt_json (JString ''order-7'')] ''/order/:orderId''
        \<and> after c = empty_store(ResilienceTestUser_order_ids := [JString ''order-7'']))"
proof -
  have "\<exists>c. get_order \<lparr>ident = 1, cls_of = OrderServiceUser\<rparr> empty_store first_choices = Inr c
        \<and> sent c = Get [Lit ''/order/dummy-order-id''] ''/order/:orderId''
        \<and> after c = empty_store"
    using get_order_request [of "\<lparr>ident = 1, cls_of = OrderServiceUser\<rparr>" empty_store
        first_choices]
    by (auto simp: order_ids_def empty_store_def)
  moreover have "\<exists>c. get_order_details \<lparr>ident = 2, cls_of = CombinedChaosUser\<rparr>
              (empty_store(ResilienceTestUser_order_ids := [JString ''order-7''])) first_choices
            = Inr c
        \<and> sent c = Get [Lit ''/order/'', Fmt_json (JString ''order-7'')] ''/order/:orderId''
        \<and> after c = empty_store(ResilienceTestUser_order_ids := [JString ''order-7''])"
    using get_order_request [of "\<lparr>ident = 2, cls_of = CombinedChaosUser\<rparr>"
        "empty_store(ResilienceTestUser_order_ids := [JString ''order-7''])" first_choices]
    by (auto simp: order_ids_def)
  ultimately show ?thesis by simp
qed

end
